theory Spec2Isabelle
  imports Complex_Main "HOL-Library.Log_Nat"
begin

section \<open>Python arithmetic used by the orchestrator\<close>

text \<open>
  The orchestrator computes its percentages with Python floats: \<open>passed / total\<close> is the
  true division of two ints, \<open>* 100\<close> a float multiplication, \<open>int(...)\<close> a truncation
  and \<open>round(..., 2)\<close> a rounding to two decimals. A float is an IEEE binary64 number;
  a finite one is a rational, so a float is modelled by the rational it denotes and every
  operation rounds its exact result to the nearest binary64 number, ties to even. All
  floats of this program lie between 0 and 100, so infinities and NaN do not occur.
\<close>

datatype py_error = ZeroDivisionError | IndexError

definition round_half_even :: "rat \<Rightarrow> int" where
  \<comment> \<open>the nearest integer, an exact half going to the even neighbour\<close>
  "round_half_even q =
     (let f = \<lfloor>q\<rfloor>; d = q - of_int f
      in if d < 1 / 2 then f
         else if 1 / 2 < d then f + 1
         else if even f then f else f + 1)"

definition ilog2 :: "rat \<Rightarrow> int" where
  \<comment> \<open>the binary exponent of a positive rational: \<open>2 ^ ilog2 q \<le> q < 2 ^ (ilog2 q + 1)\<close>\<close>
  "ilog2 q =
     (let (a, b) = quotient_of q; k = bitlen a - bitlen b
      in if 2 powi k \<le> q then k else k - 1)"

definition fl :: "rat \<Rightarrow> rat" where
  \<comment> \<open>rounding to binary64: 53 significant bits, least exponent \<open>- 1074\<close>, ties to even\<close>
  "fl q =
     (if q = 0 then 0
      else let a = \<bar>q\<bar>; e = max (ilog2 a - 52) (- 1074)
           in sgn q * (of_int (round_half_even (a / 2 powi e)) * 2 powi e))"

definition py_truediv :: "int \<Rightarrow> int \<Rightarrow> py_error + rat" where
  \<comment> \<open>\<open>a / b\<close> on ints: correctly rounded, ZeroDivisionError on a zero divisor\<close>
  "py_truediv a b = (if b = 0 then Inl ZeroDivisionError else Inr (fl (of_int a / of_int b)))"

definition fmul :: "rat \<Rightarrow> rat \<Rightarrow> rat" where
  \<comment> \<open>\<open>x * y\<close> on floats\<close>
  "fmul x y = fl (x * y)"

definition py_int :: "rat \<Rightarrow> int" where
  \<comment> \<open>\<open>int(x)\<close> on a float: truncation towards zero\<close>
  "py_int x = (if 0 \<le> x then \<lfloor>x\<rfloor> else \<lceil>x\<rceil>)"

definition py_round2 :: "rat \<Rightarrow> rat" where
  \<comment> \<open>\<open>round(x, 2)\<close>: the exact value of \<open>x\<close> is rounded to two decimals, ties to even,
      and the float nearest to that decimal is returned\<close>
  "py_round2 x = fl (of_int (round_half_even (x * 100)) / 100)"

definition py_float :: "rat \<Rightarrow> rat" where
  \<comment> \<open>a float literal: \<open>66.67\<close> is \<open>py_float (6667 / 100)\<close>\<close>
  "py_float d = fl d"

fun str_nat :: "nat \<Rightarrow> string" where
  "str_nat n =
     (if n < 10 then [char_of (48 + n)]
      else str_nat (n div 10) @ [char_of (48 + n mod 10)])"

declare str_nat.simps [simp del]

section \<open>Data model\<close>

text \<open>
  The agents pass dictionaries around; each is a record here, a key that may be missing
  or null an \<open>option\<close>. Records cannot share a field name, so the fields of a test case
  carry the prefix \<open>tc_\<close>, those of a step result \<open>step_\<close>, of an executor result
  \<open>t_\<close>, of a cross-validation result \<open>cv_\<close>, of a validated result \<open>vr_\<close> and of a
  knowledge-base entry \<open>kb_\<close> where the plain name is taken. Timestamps and durations
  are left out: no decision of the program reads them.
\<close>

record test_case =
  tc_id :: int
  tc_name :: string
  tc_steps :: "string list"

type_synonym artifacts = "(string \<times> string) list"

record step_result =
  index :: nat
  description :: string
  step_status :: string
  action_taken :: "string option"
  screenshot :: "string option"
  step_error :: "string option"

record test_result =
  test_id :: int
  test_name :: string
  agent_id :: string
  steps :: "step_result list"
  t_status :: string
  artifacts :: "artifacts list"
  t_error :: "string option"

text \<open>
  A run is the dictionary of one repeat attempt as the orchestrator keeps it; the verdict
  logic reads only its \<open>status\<close> through \<open>r.get("status")\<close>, which is \<open>None\<close> when the
  key is missing or null.
\<close>

record run =
  run_index :: nat
  status :: "string option"
  error :: "string option"

record cross_validation =
  cv_status :: "string option"
  agrees_with_primary :: bool
  primary_statuses :: "string option list option"
  cv_agent_id :: "string option"
  cv_error :: "string option"

text \<open>
  The verdict dictionary has the keys \<open>pass_count\<close>, \<open>fail_count\<close> and \<open>total_runs\<close>
  only when some run had a status; \<open>None\<close> is the absent key.
\<close>

record verdict =
  result :: string
  confidence :: int
  reason :: string
  pass_count :: "nat option"
  fail_count :: "nat option"
  total_runs :: "nat option"

record validated_result =
  vr_test_id :: int
  vr_test_name :: string
  vr_runs :: "run list"
  vr_cross_validation :: cross_validation
  vr_verdict :: "verdict option"
  vr_reproducibility :: "rat option"

record kb_entry =
  game_url :: string
  kb_test_case :: test_case
  kb_result :: string
  execution_time :: rat
  kb_artifacts :: "artifacts option"

section \<open>The executor agent\<close>

text \<open>
  The browser, the step interpreter and the artifact store are outside the program. Each
  call into them either returns, \<open>Inr\<close>, or raises, \<open>Inl\<close>. What is raised is either an
  instance of \<open>Exception\<close>, which the \<open>except Exception\<close> clauses of the executor catch,
  or another \<open>BaseException\<close> (\<open>asyncio.CancelledError\<close>, \<open>KeyboardInterrupt\<close>,
  \<open>SystemExit\<close>), which they do not catch and which leaves the function; the string is
  \<open>str(e)\<close>. A \<open>step_env\<close> holds what the four calls of \<open>_execute_step\<close> do for one
  step. A function that can be left by an exception returns a sum, \<open>Inl\<close> being the
  exception that left it.
\<close>

datatype raised = Exception string | BaseException string

record step_env =
  on_interpret :: "raised + string"
  on_perform :: "raised + unit"
  on_wait :: "raised + unit"
  on_capture :: "raised + artifacts"

definition step_except :: "step_result \<Rightarrow> raised \<Rightarrow> raised + step_result" where
  \<comment> \<open>the \<open>except Exception as e\<close> clause of \<open>_execute_step\<close>, line 180\<close>
  "step_except step_result x =
     (case x of
        Exception e \<Rightarrow> Inr (step_result\<lparr>step_status := ''failed'', step_error := Some e\<rparr>)
      | BaseException e \<Rightarrow> Inl (BaseException e))"

definition execute_step :: "step_env \<Rightarrow> string \<Rightarrow> nat \<Rightarrow> raised + step_result" where
  "execute_step env step step_index =
     (let step_result = \<lparr>index = step_index, description = step, step_status = ''pending'',
                          action_taken = None, screenshot = None, step_error = None\<rparr>
      in case on_interpret env of
           Inl x \<Rightarrow> step_except step_result x
         | Inr action \<Rightarrow>
             (let step_result = step_result\<lparr>action_taken := Some action\<rparr>
              in case on_perform env of
                   Inl x \<Rightarrow> step_except step_result x
                 | Inr _ \<Rightarrow>
                     (case on_wait env of
                        Inl x \<Rightarrow> step_except step_result x
                      | Inr _ \<Rightarrow>
                          (case on_capture env of
                             Inl x \<Rightarrow> step_except step_result x
                           | Inr arts \<Rightarrow>
                               Inr (step_result\<lparr>screenshot := map_of arts ''screenshot'',
                                                 step_status := ''passed''\<rparr>)))))"

fun run_steps ::
  "(nat \<Rightarrow> step_env) \<Rightarrow> string list \<Rightarrow> nat \<Rightarrow> test_result \<Rightarrow> raised + test_result" where
  \<comment> \<open>the \<open>for\<close> loop of \<open>execute_test\<close>, leaving at the first failed step; an exception
      that leaves \<open>_execute_step\<close> is not an \<open>Exception\<close> and leaves the loop too\<close>
  "run_steps env [] step_idx res = Inr res"
| "run_steps env (step # rest) step_idx res =
     (case execute_step (env step_idx) step step_idx of
        Inl x \<Rightarrow> Inl x
      | Inr step_result \<Rightarrow>
          (let res = res\<lparr>steps := steps res @ [step_result]\<rparr>
           in if step_status step_result = ''failed''
              then Inr (res\<lparr>t_status := ''failed'', t_error := step_error step_result\<rparr>)
              else run_steps env rest (step_idx + 1) res))"

definition execute_test ::
  "string \<Rightarrow> test_case \<Rightarrow> (nat \<Rightarrow> step_env) \<Rightarrow> raised + artifacts \<Rightarrow> raised + test_result" where
  \<comment> \<open>\<open>final_capture\<close> is what the call of \<open>capture_all\<close> after the loop does; the
      \<open>except Exception as e\<close> clause of line 115 catches an \<open>Exception\<close> only\<close>
  "execute_test agent test_case env final_capture =
     (let res = \<lparr>test_id = tc_id test_case, test_name = tc_name test_case, agent_id = agent,
                  steps = [], t_status = ''running'', artifacts = [], t_error = None\<rparr>
      in case run_steps env (tc_steps test_case) 0 res of
           Inl x \<Rightarrow> Inl x
         | Inr res \<Rightarrow>
             (let res = (if t_status res = ''running'' then res\<lparr>t_status := ''passed''\<rparr> else res)
              in case final_capture of
                   Inr final_artifacts \<Rightarrow>
                     Inr (res\<lparr>artifacts := artifacts res @ [final_artifacts]\<rparr>)
                 | Inl (Exception e) \<Rightarrow> Inr (res\<lparr>t_status := ''error'', t_error := Some e\<rparr>)
                 | Inl (BaseException e) \<Rightarrow> Inl (BaseException e)))"

section \<open>The orchestrator agent\<close>

subsection \<open>Cross-agent validation\<close>

definition cross_agent_validate :: "string + test_result \<Rightarrow> run list \<Rightarrow> cross_validation" where
  \<comment> \<open>\<open>attempt\<close> is what the \<open>try\<close> block does up to the return of \<open>execute_test\<close>:
      \<open>Inl e\<close> when the browser raises an exception that the \<open>except\<close> clause of line 228
      catches, \<open>e\<close> its message, \<open>Inr\<close> when the cross executor returns its result\<close>
  "cross_agent_validate attempt primary_results =
     (case attempt of
        Inr res \<Rightarrow>
          (let primary_status = map status primary_results;
               cross_status = Some (t_status res);
               agreement = list_all (\<lambda>s. s = cross_status) primary_status
           in \<lparr>cv_status = cross_status, agrees_with_primary = agreement,
               primary_statuses = Some primary_status,
               cv_agent_id = Some ''cross_validator'', cv_error = None\<rparr>)
      | Inl e \<Rightarrow>
          \<lparr>cv_status = Some ''error'', agrees_with_primary = False,
           primary_statuses = None, cv_agent_id = None, cv_error = Some e\<rparr>)"

subsection \<open>The verdict engine\<close>

definition truthy :: "string option \<Rightarrow> bool" where
  \<comment> \<open>Python's truth value of \<open>r.get("status")\<close>: \<open>None\<close> and the empty string are false\<close>
  "truthy s = (case s of None \<Rightarrow> False | Some v \<Rightarrow> v \<noteq> [])"

definition valid_statuses :: "run list \<Rightarrow> string option list" where
  \<comment> \<open>line 254: \<open>[r.get("status") for r in runs if r.get("status")]\<close>\<close>
  "valid_statuses runs = map status (filter (\<lambda>r. truthy (status r)) runs)"

definition classify :: "nat \<Rightarrow> nat \<Rightarrow> nat \<Rightarrow> py_error + (string \<times> int \<times> string)" where
  \<comment> \<open>lines 267 to 283 of \<open>_determine_verdict\<close>: result, confidence and reason before
      the cross-validation adjustment\<close>
  "classify passed failed total' =
     (if passed = total' then
        Inr (''PASS'', 100, ''All '' @ str_nat total' @ '' runs passed'')
      else if failed = total' then
        Inr (''FAIL'', 100, ''All '' @ str_nat total' @ '' runs failed'')
      else if passed > failed then
        (case py_truediv (int passed) (int total') of
           Inl e \<Rightarrow> Inl e
         | Inr q \<Rightarrow>
             Inr (''FLAKY'', py_int (fmul q 100),
                  ''Inconsistent: '' @ str_nat passed @ ''/'' @ str_nat total' @ '' passed''))
      else
        (case py_truediv (int failed) (int total') of
           Inl e \<Rightarrow> Inl e
         | Inr q \<Rightarrow>
             Inr (''FAIL'', py_int (fmul q 100),
                  ''Majority failed: '' @ str_nat failed @ ''/'' @ str_nat total')))"

definition cross_adjust :: "bool \<Rightarrow> string \<times> int \<times> string \<Rightarrow> string \<times> int \<times> string" where
  \<comment> \<open>lines 285 to 292 of \<open>_determine_verdict\<close>\<close>
  "cross_adjust agrees b =
     (case b of (res, conf, rsn) \<Rightarrow>
        if agrees then (res, min 100 (conf + 10), rsn)
        else
          (let conf' = max 0 (conf - 20)
           in if res = ''PASS''
              then (''FLAKY'', conf', rsn @ '' (cross-validation disagreement)'')
              else (res, conf', rsn)))"

definition base_classification :: "run list \<Rightarrow> py_error + (string \<times> int \<times> string)" where
  \<comment> \<open>lines 263 to 283: the counts of the statuses kept, classified\<close>
  "base_classification runs =
     (let statuses = valid_statuses runs
      in classify (count_list statuses (Some ''passed''))
                  (count_list statuses (Some ''failed'')) (length statuses))"

definition determine_verdict :: "run list \<Rightarrow> cross_validation \<Rightarrow> py_error + verdict" where
  "determine_verdict runs cv =
     (let statuses = valid_statuses runs
      in if statuses = [] then
           Inr \<lparr>result = ''INCONCLUSIVE'', confidence = 0,
                reason = ''No valid runs completed'',
                pass_count = None, fail_count = None, total_runs = None\<rparr>
         else
           (let passed = count_list statuses (Some ''passed'');
                failed = count_list statuses (Some ''failed'');
                total' = length statuses
            in case classify passed failed total' of
                 Inl e \<Rightarrow> Inl e
               | Inr b \<Rightarrow>
                   (case cross_adjust (agrees_with_primary cv) b of
                      (res, conf, rsn) \<Rightarrow>
                        Inr \<lparr>result = res, confidence = conf, reason = rsn,
                             pass_count = Some passed, fail_count = Some failed,
                             total_runs = Some total'\<rparr>)))"

subsection \<open>The reproducibility score\<close>

text \<open>
  \<open>collections.Counter\<close> is a dictionary in insertion order, an association list here.
  \<open>most_common(1)\<close> is \<open>max\<close> over its items by count, which keeps the first item
  among those of the greatest count, and is the empty list for an empty counter.
\<close>

fun counter_update :: "'a \<Rightarrow> ('a \<times> nat) list \<Rightarrow> ('a \<times> nat) list" where
  "counter_update x [] = [(x, 1)]"
| "counter_update x ((k, c) # kcs) =
     (if k = x then (k, c + 1) # kcs else (k, c) # counter_update x kcs)"

definition Counter :: "'a list \<Rightarrow> ('a \<times> nat) list" where
  "Counter xs = foldl (\<lambda>counts x. counter_update x counts) [] xs"

fun max_by_count :: "'a \<times> nat \<Rightarrow> ('a \<times> nat) list \<Rightarrow> 'a \<times> nat" where
  "max_by_count best [] = best"
| "max_by_count best (kc # kcs) =
     (if snd best < snd kc then max_by_count kc kcs else max_by_count best kcs)"

definition most_common1 :: "('a \<times> nat) list \<Rightarrow> ('a \<times> nat) list" where
  "most_common1 counts = (case counts of [] \<Rightarrow> [] | kc # kcs \<Rightarrow> [max_by_count kc kcs])"

definition calculate_reproducibility :: "run list \<Rightarrow> py_error + rat" where
  "calculate_reproducibility runs =
     (if runs = [] then Inr 0
      else
        (let statuses = map status runs
         in if statuses = [] then Inr 0
            else
              (let counts = Counter statuses
               in case most_common1 counts of
                    [] \<Rightarrow> Inl IndexError
                  | (k, most_common_count) # _ \<Rightarrow>
                      (case py_truediv (int most_common_count) (int (length statuses)) of
                         Inl e \<Rightarrow> Inl e
                       | Inr q \<Rightarrow> Inr (py_round2 (fmul q 100))))))"

subsection \<open>Recording for learning\<close>

text \<open>
  The knowledge base is modelled by the calls of \<open>add_test_result\<close> it has received, in
  order. Whether the store behind it then fails is not modelled: \<open>_record_for_learning\<close>
  catches every exception of the call.
\<close>

type_synonym knowledge_base = "kb_entry list"

definition add_test_result ::
  "knowledge_base \<Rightarrow> string \<Rightarrow> test_case \<Rightarrow> string \<Rightarrow> rat \<Rightarrow> artifacts option \<Rightarrow> knowledge_base" where
  "add_test_result kb url test res time arts =
     kb @ [\<lparr>game_url = url, kb_test_case = test, kb_result = res,
            execution_time = time, kb_artifacts = arts\<rparr>]"

definition record_for_learning ::
  "knowledge_base \<Rightarrow> string \<Rightarrow> test_case \<Rightarrow> validated_result \<Rightarrow> knowledge_base" where
  "record_for_learning kb url test results =
     (let verdict = (case vr_verdict results of None \<Rightarrow> ''UNKNOWN'' | Some v \<Rightarrow> result v);
          reproducibility = (case vr_reproducibility results of None \<Rightarrow> 0 | Some r \<Rightarrow> r)
      in if verdict = ''PASS'' \<and> 80 \<le> reproducibility
         then add_test_result kb url test verdict 0 None
         else kb)"

section \<open>The formulas of the specification\<close>

definition modal_count :: "'a list \<Rightarrow> nat" where
  \<comment> \<open>the count of the most frequent element of a non-empty list\<close>
  "modal_count xs = Max (count_list xs ` set xs)"

definition spec_flaky_confidence :: "nat \<Rightarrow> nat \<Rightarrow> int" where
  \<comment> \<open>the specification's \<open>round(100*passed/total)\<close>\<close>
  "spec_flaky_confidence passed total' = round_half_even (100 * of_nat passed / of_nat total')"

definition spec_score :: "run list \<Rightarrow> rat" where
  \<comment> \<open>the specification's \<open>round(100 * m / len(runs), 2)\<close>, the product \<open>100 * m\<close> an int
      and the quotient a float as the expression is written\<close>
  "spec_score runs =
     py_round2 (fl (of_nat (100 * modal_count (map status runs)) / of_nat (length runs)))"

definition spec_score_exact :: "run list \<Rightarrow> rat" where
  \<comment> \<open>the same formula in exact arithmetic: the decimal nearest to \<open>100 * m / len(runs)\<close>\<close>
  "spec_score_exact runs =
     of_int (round_half_even
       (100 * (100 * of_nat (modal_count (map status runs)) / of_nat (length runs)))) / 100"

section \<open>Sample inputs\<close>

definition run_with :: "nat \<Rightarrow> string \<Rightarrow> run" where
  "run_with i s = \<lparr>run_index = i, status = Some s, error = None\<rparr>"

definition run_without_status :: "nat \<Rightarrow> run" where
  "run_without_status i = \<lparr>run_index = i, status = None, error = None\<rparr>"

definition cross_with :: "string \<Rightarrow> bool \<Rightarrow> cross_validation" where
  "cross_with s agrees =
     \<lparr>cv_status = Some s, agrees_with_primary = agrees, primary_statuses = None,
      cv_agent_id = Some ''cross_validator'', cv_error = None\<rparr>"

definition passing_env :: "nat \<Rightarrow> step_env" where
  "passing_env i =
     \<lparr>on_interpret = Inr ''click'', on_perform = Inr (), on_wait = Inr (),
      on_capture = Inr [(''screenshot'', ''step.png'')]\<rparr>"

definition sample_test :: test_case where
  "sample_test = \<lparr>tc_id = 1, tc_name = ''Start game'', tc_steps = [''Click start'', ''Wait'']\<rparr>"


definition step_statuses :: "test_result \<Rightarrow> string list" where
  "step_statuses res = map step_status (steps res)"

definition runs_87_of_160 :: "run list" where
  "runs_87_of_160 =
     map (\<lambda>i. run_with i ''passed'') [0..<87] @ map (\<lambda>i. run_with i ''failed'') [87..<160]"

definition verdict_with :: "string \<Rightarrow> verdict" where
  "verdict_with r =
     \<lparr>result = r, confidence = 100, reason = ''All 3 runs passed'',
      pass_count = Some 3, fail_count = Some 0, total_runs = Some 3\<rparr>"

definition validated_with :: "string \<Rightarrow> rat \<Rightarrow> validated_result" where
  "validated_with r x =
     \<lparr>vr_test_id = 1, vr_test_name = ''Start game'', vr_runs = [],
      vr_cross_validation = cross_with ''passed'' True,
      vr_verdict = Some (verdict_with r), vr_reproducibility = Some x\<rparr>"

section \<open>Bounds on the float operations\<close>

lemma round_half_even_le: "x \<le> of_int k \<Longrightarrow> round_half_even x \<le> k"
proof -
  assume h: "x \<le> of_int k"
  have f: "\<lfloor>x\<rfloor> \<le> k" using h by (simp add: floor_le_iff) 
  show ?thesis
  proof (cases "\<lfloor>x\<rfloor> = k")
    case True
    then have "x - of_int \<lfloor>x\<rfloor> \<le> 0" using h by simp
    then show ?thesis using True by (simp add: round_half_even_def Let_def)
  next
    case False
    then have "\<lfloor>x\<rfloor> + 1 \<le> k" using f by simp
    then show ?thesis by (simp add: round_half_even_def Let_def)
  qed
qed

lemma round_half_even_ge: "of_int k \<le> x \<Longrightarrow> k \<le> round_half_even x"
proof -
  assume h: "of_int k \<le> x"
  have f: "k \<le> \<lfloor>x\<rfloor>" using h by (simp add: le_floor_iff)
  then show ?thesis by (simp add: round_half_even_def Let_def)
qed

lemma quotient_of_pos:
  assumes "0 < q" "quotient_of q = (a, b)"
  shows "0 < a" "0 < b" "q = of_int a / of_int b"
  using assms quotient_of_denom_pos[of q a b] quotient_of_div[of q a b]
  by (auto simp: zero_less_divide_iff)

lemma ilog2_bounds:
  assumes "0 < q"
  shows "2 powi ilog2 q \<le> q" and "q < 2 powi (ilog2 q + 1)"
proof -
  obtain a b where ab: "quotient_of q = (a, b)" by (cases "quotient_of q")
  from quotient_of_pos[OF assms ab] have a: "0 < a" and b: "0 < b" and q: "q = of_int a / of_int b"
    by auto
  define k where "k = bitlen a - bitlen b"
  have la: "(2::rat) powi (bitlen a - 1) \<le> of_int a" and ua: "(of_int a :: rat) < 2 powi bitlen a"
  proof -
    from bitlen_bounds[OF a] have "2 ^ nat (bitlen a - 1) \<le> a" "a < 2 ^ nat (bitlen a)" by auto
    then have "(of_int (2 ^ nat (bitlen a - 1)) :: rat) \<le> of_int a" "(of_int a :: rat) < of_int (2 ^ nat (bitlen a))"
      by (simp_all only: of_int_le_iff of_int_less_iff)
    moreover have "1 \<le> bitlen a" using a bitlen_eq_zero_iff[of a] bitlen_nonneg[of a] by linarith
    ultimately show "(2::rat) powi (bitlen a - 1) \<le> of_int a" "(of_int a :: rat) < 2 powi bitlen a"
      by (simp_all add: power_int_def)
  qed
  have lb: "(2::rat) powi (bitlen b - 1) \<le> of_int b" and ub: "(of_int b :: rat) < 2 powi bitlen b"
  proof -
    from bitlen_bounds[OF b] have "2 ^ nat (bitlen b - 1) \<le> b" "b < 2 ^ nat (bitlen b)" by auto
    then have "(of_int (2 ^ nat (bitlen b - 1)) :: rat) \<le> of_int b" "(of_int b :: rat) < of_int (2 ^ nat (bitlen b))"
      by (simp_all only: of_int_le_iff of_int_less_iff)
    moreover have "1 \<le> bitlen b" using b bitlen_eq_zero_iff[of b] bitlen_nonneg[of b] by linarith
    ultimately show "(2::rat) powi (bitlen b - 1) \<le> of_int b" "(of_int b :: rat) < 2 powi bitlen b"
      by (simp_all add: power_int_def)
  qed
  have bpos: "(0::rat) < of_int b" using b by simp
  have lo: "(2::rat) powi (k - 1) < q"
  proof -
    have "(2::rat) powi (k - 1) * of_int b < 2 powi (k - 1) * 2 powi bitlen b"
      using ub by (simp add: mult_strict_left_mono)
    also have "\<dots> = 2 powi (bitlen a - 1)"
      by (simp add: k_def power_int_add[symmetric])
    also have "\<dots> \<le> of_int a" by (rule la)
    finally show ?thesis using bpos by (simp add: q pos_less_divide_eq)
  qed
  have hi: "q < (2::rat) powi (k + 1)"
  proof -
    have "of_int a < (2::rat) powi bitlen a" by (rule ua)
    also have "\<dots> = 2 powi (k + 1) * 2 powi (bitlen b - 1)"
      by (simp add: k_def power_int_add[symmetric])
    also have "\<dots> \<le> 2 powi (k + 1) * of_int b"
      using lb by (simp add: mult_left_mono)
    finally show ?thesis using bpos by (simp add: q pos_divide_less_eq)
  qed
  have il: "ilog2 q = (if 2 powi k \<le> q then k else k - 1)"
    by (simp add: ilog2_def ab k_def Let_def)
  show "2 powi ilog2 q \<le> q" using lo by (simp add: il)
  show "q < 2 powi (ilog2 q + 1)" using hi by (simp add: il)
qed

lemma ilog2_less:
  assumes "0 < q" "q < 2 powi K"
  shows "ilog2 q < K"
proof (rule ccontr)
  assume "\<not> ilog2 q < K"
  then have "(2::rat) powi K \<le> 2 powi ilog2 q" by (simp add: power_int_increasing)
  then show False using ilog2_bounds(1)[OF assms(1)] assms(2) by simp
qed

lemma fl_nonneg: "0 \<le> q \<Longrightarrow> 0 \<le> fl q"
proof -
  assume h: "0 \<le> q"
  have "0 \<le> round_half_even (q / 2 powi e)" for e
    using h by (intro round_half_even_ge) simp
  then show ?thesis using h by (simp add: fl_def Let_def)
qed

lemma fl_le_int:
  assumes "0 \<le> q" "q \<le> of_int B" "q < 2 powi 53"
  shows "fl q \<le> of_int B"
proof (cases "q = 0")
  case True
  then show ?thesis using assms by (simp add: fl_def)
next
  case False
  then have pos: "0 < q" using assms(1) by simp
  define e where "e = max (ilog2 q - 52) (- 1074)"
  define n where "n = nat (- e)"
  have "ilog2 q < 53" using ilog2_less[OF pos assms(3)] .
  then have e: "e \<le> 0" by (simp add: e_def)
  then have pw: "(2::rat) powi e = 1 / 2 ^ n"
    by (cases "e = 0") (simp_all add: power_int_def n_def inverse_eq_divide power_one_over) 
  have "q / 2 powi e = q * 2 ^ n" by (simp add: pw)
  also have "\<dots> \<le> of_int B * 2 ^ n" using assms(2) by simp
  also have "\<dots> = of_int (B * 2 ^ n)" by simp
  finally have "round_half_even (q / 2 powi e) \<le> B * 2 ^ n" by (rule round_half_even_le)
  then have "(of_int (round_half_even (q / 2 powi e)) :: rat) \<le> of_int (B * 2 ^ n)"
    by (simp only: of_int_le_iff)
  then have "of_int (round_half_even (q / 2 powi e)) * 2 powi e \<le> (of_int B :: rat)"
    by (simp add: pw pos_divide_le_eq)
  moreover have "fl q = of_int (round_half_even (q / 2 powi e)) * 2 powi e"
    using pos by (simp add: fl_def Let_def e_def)
  ultimately show ?thesis by simp
qed

lemma percent_bounds:
  assumes "p \<le> t" "py_truediv (int p) (int t) = Inr q"
  shows "0 \<le> py_int (fmul q 100)" and "py_int (fmul q 100) \<le> 100"
proof -
  have t: "t \<noteq> 0" and q: "q = fl (of_nat p / of_nat t)"
    using assms(2) by (auto simp: py_truediv_def split: if_splits)
  have r0: "(0::rat) \<le> of_nat p / of_nat t" by simp
  have r1: "(of_nat p :: rat) / of_nat t \<le> 1" using assms(1) t by (simp add: divide_le_eq_1)
  have q0: "0 \<le> q" unfolding q by (rule fl_nonneg[OF r0])
  have "q \<le> of_int 1" unfolding q
    by (rule fl_le_int[OF r0]) (use r1 in \<open>simp_all add: order_le_less_trans\<close>)
  then have q1: "q \<le> 1" by simp
  have x0: "0 \<le> q * 100" using q0 by simp
  have x1: "q * 100 \<le> of_int 100" using q1 by simp
  have x2: "q * 100 < 2 powi 53" using q1 by (simp add: order_le_less_trans)
  have f0: "0 \<le> fmul q 100" unfolding fmul_def by (rule fl_nonneg[OF x0])
  have f1: "fmul q 100 \<le> of_int 100" unfolding fmul_def by (rule fl_le_int[OF x0 x1 x2])
  show "0 \<le> py_int (fmul q 100)" using f0 by (simp add: py_int_def)
  show "py_int (fmul q 100) \<le> 100" using f0 f1 by (simp add: py_int_def floor_le_iff)
qed

section \<open>Verdicts of run sets without a status\<close>

lemma no_status_filtered:
  "list_all (\<lambda>r. status r = None) runs \<Longrightarrow> valid_statuses runs = []"
  by (induction runs) (simp_all add: truthy_def valid_statuses_def)

text \<open>
  C7. A run set in which no run carries a non-null status, the empty run set among them,
  is judged INCONCLUSIVE with confidence 0 and the reason "No valid runs completed",
  with no further key in the verdict, whatever the cross-validation input is.
\<close>

theorem no_status_inconclusive:
  "list_all (\<lambda>r. status r = None) runs \<Longrightarrow>
   determine_verdict runs cv =
     Inr \<lparr>result = ''INCONCLUSIVE'', confidence = 0, reason = ''No valid runs completed'',
          pass_count = None, fail_count = None, total_runs = None\<rparr>"
  by (simp add: determine_verdict_def no_status_filtered)

theorem no_status_inconclusive_witness:
  "list_all (\<lambda>r. status r = None) [run_without_status 0] \<and>
   determine_verdict [run_without_status 0] (cross_with ''passed'' True) =
     Inr \<lparr>result = ''INCONCLUSIVE'', confidence = 0, reason = ''No valid runs completed'',
          pass_count = None, fail_count = None, total_runs = None\<rparr>"
  using no_status_inconclusive [of "[run_without_status 0]" "cross_with ''passed'' True"]
  by (simp add: run_without_status_def)

section \<open>The range of the confidence\<close>

lemma classify_bounds:
  assumes "p \<le> t" "f \<le> t" "t \<noteq> 0"
  shows "\<exists>res conf rsn. classify p f t = Inr (res, conf, rsn) \<and> 0 \<le> conf \<and> conf \<le> 100"
proof -
  have dp: "py_truediv (int p) (int t) = Inr (fl (of_nat p / of_nat t))"
    and df: "py_truediv (int f) (int t) = Inr (fl (of_nat f / of_nat t))"
    using assms(3) by (simp_all add: py_truediv_def)
  show ?thesis
    using percent_bounds[OF assms(1) dp] percent_bounds[OF assms(2) df]
    by (simp add: classify_def dp df)
qed

lemma cross_adjust_bounds:
  assumes "cross_adjust a (res, conf, rsn) = (res', conf', rsn')" "0 \<le> conf" "conf \<le> 100"
  shows "0 \<le> conf' \<and> conf' \<le> 100"
  using assms by (auto simp: cross_adjust_def Let_def split: if_splits)

text \<open>
  C4. For every run set and every cross-validation input the verdict engine returns a
  verdict, it raises nothing, and the confidence of that verdict lies between 0 and 100.
\<close>

theorem confidence_in_range:
  "\<exists>v. determine_verdict runs cv = Inr v \<and> 0 \<le> confidence v \<and> confidence v \<le> 100"
proof (cases "valid_statuses runs = []")
  case True
  then show ?thesis by (simp add: determine_verdict_def)
next
  case False
  let ?st = "valid_statuses runs"
  have t: "length ?st \<noteq> 0" using False by simp
  obtain res conf rsn where
    c: "classify (count_list ?st (Some ''passed'')) (count_list ?st (Some ''failed'')) (length ?st)
          = Inr (res, conf, rsn)" and b: "0 \<le> conf" "conf \<le> 100"
    using classify_bounds[OF count_le_length count_le_length t] by blast
  obtain res' conf' rsn' where
    a: "cross_adjust (agrees_with_primary cv) (res, conf, rsn) = (res', conf', rsn')"
    by (cases "cross_adjust (agrees_with_primary cv) (res, conf, rsn)")
  from cross_adjust_bounds[OF a b] show ?thesis
    using False by (simp add: determine_verdict_def Let_def c a)
qed

section \<open>The cross-validation adjustment\<close>

lemma classify_result:
  "classify p f t = Inr (res, conf, rsn) \<Longrightarrow> res \<in> {''PASS'', ''FAIL'', ''FLAKY''}"
  by (auto simp: classify_def split: if_splits sum.splits)

text \<open>
  C3. Whenever some run has a status, the verdict is the base classification adjusted by
  the cross-validation: on agreement the confidence becomes \<open>min(100, confidence + 10)\<close>
  and nothing else changes; on disagreement the confidence becomes
  \<open>max(0, confidence - 20)\<close>, a base result PASS becomes FLAKY with
  " (cross-validation disagreement)" appended to the reason, and a base result FAIL or
  FLAKY keeps its kind and its reason.
\<close>

theorem cross_validation_adjustment:
  assumes "valid_statuses runs \<noteq> []" "base_classification runs = Inr (res, conf, rsn)"
  shows "\<exists>v. determine_verdict runs cv = Inr v \<and>
           res \<in> {''PASS'', ''FAIL'', ''FLAKY''} \<and>
           (agrees_with_primary cv \<longrightarrow>
              result v = res \<and> confidence v = min 100 (conf + 10) \<and> reason v = rsn) \<and>
           (\<not> agrees_with_primary cv \<longrightarrow>
              confidence v = max 0 (conf - 20) \<and>
              (res = ''PASS'' \<longrightarrow>
                 result v = ''FLAKY'' \<and> reason v = rsn @ '' (cross-validation disagreement)'') \<and>
              (res \<noteq> ''PASS'' \<longrightarrow> result v = res \<and> reason v = rsn))"
proof -
  from assms(2) have
    c: "classify (count_list (valid_statuses runs) (Some ''passed''))
          (count_list (valid_statuses runs) (Some ''failed'')) (length (valid_statuses runs))
        = Inr (res, conf, rsn)"
    by (simp add: base_classification_def Let_def)
  note k = classify_result[OF c]
  show ?thesis
  proof (cases "agrees_with_primary cv")
    case True
    then show ?thesis using assms(1) k
      by (simp add: determine_verdict_def Let_def c cross_adjust_def)
  next
    case False
    then show ?thesis using assms(1) k
      by (cases "res = ''PASS''") (simp_all add: determine_verdict_def Let_def c cross_adjust_def)
  qed
qed

theorem cross_validation_adjustment_witness:
  "valid_statuses [run_with 0 ''passed'', run_with 1 ''passed'', run_with 2 ''passed''] \<noteq> [] \<and>
   base_classification [run_with 0 ''passed'', run_with 1 ''passed'', run_with 2 ''passed'']
     = Inr (''PASS'', 100, ''All 3 runs passed'') \<and>
   determine_verdict [run_with 0 ''passed'', run_with 1 ''passed'', run_with 2 ''passed'']
       (cross_with ''failed'' False)
     = Inr \<lparr>result = ''FLAKY'', confidence = 80,
            reason = ''All 3 runs passed (cross-validation disagreement)'',
            pass_count = Some 3, fail_count = Some 0, total_runs = Some 3\<rparr>"
proof -
  let ?R = "[run_with 0 ''passed'', run_with 1 ''passed'', run_with 2 ''passed'']"
  have v: "valid_statuses ?R \<noteq> []" by code_simp
  have b: "base_classification ?R = Inr (''PASS'', 100, ''All 3 runs passed'')" by code_simp
  have d: "determine_verdict ?R (cross_with ''failed'' False)
     = Inr \<lparr>result = ''FLAKY'', confidence = 80,
            reason = ''All 3 runs passed (cross-validation disagreement)'',
            pass_count = Some 3, fail_count = Some 0, total_runs = Some 3\<rparr>"
    by code_simp
  from cross_validation_adjustment[OF v b, of "cross_with ''failed'' False"] v b d
  show ?thesis by simp
qed

section \<open>Mixed run sets with a passing majority\<close>

text \<open>
  The specification gives the base confidence of a FLAKY verdict as
  \<open>round(100*passed/total)\<close>, 67 for two passes in three runs, and 47 after the
  penalty of a disagreeing cross-validation. The code truncates: \<open>int((2 / 3) * 100)\<close>
  is 66, and the verdict carries 46.
\<close>

theorem flaky_confidence_counterexample:
  "spec_flaky_confidence 2 3 = 67 \<and>
   base_classification [run_with 0 ''passed'', run_with 1 ''passed'', run_with 2 ''failed'']
     = Inr (''FLAKY'', 66, ''Inconsistent: 2/3 passed'') \<and>
   determine_verdict [run_with 0 ''passed'', run_with 1 ''passed'', run_with 2 ''failed'']
       (cross_with ''failed'' False)
     = Inr \<lparr>result = ''FLAKY'', confidence = 46, reason = ''Inconsistent: 2/3 passed'',
            pass_count = Some 2, fail_count = Some 1, total_runs = Some 3\<rparr>"
  by code_simp

lemma flaky_general:
  assumes "failed < passed" "passed \<noteq> length (valid_statuses runs)"
    "passed = count_list (valid_statuses runs) (Some ''passed'')"
    "failed = count_list (valid_statuses runs) (Some ''failed'')"
  shows "determine_verdict runs cv =
      Inr \<lparr>result = ''FLAKY'',
           confidence =
             (let base = py_int (fmul (fl (of_nat passed / of_nat (length (valid_statuses runs)))) 100)
              in if agrees_with_primary cv then min 100 (base + 10) else max 0 (base - 20)),
           reason = ''Inconsistent: '' @ str_nat passed @ ''/'' @
                    str_nat (length (valid_statuses runs)) @ '' passed'',
           pass_count = Some passed, fail_count = Some failed,
           total_runs = Some (length (valid_statuses runs))\<rparr>"
proof -
  let ?st = "valid_statuses runs"
  have ne: "?st \<noteq> []"
  proof
    assume "?st = []"
    then have "passed = 0" using assms(3) by simp
    then show False using assms(1) by simp
  qed
  then have t: "length ?st \<noteq> 0" by simp
  have fne: "failed \<noteq> length ?st"
  proof
    assume "failed = length ?st"
    moreover have "passed \<le> length ?st" unfolding assms(3) by (rule count_le_length)
    ultimately show False using assms(1) by simp
  qed
  have c: "classify passed failed (length ?st) =
      Inr (''FLAKY'', py_int (fmul (fl (of_nat passed / of_nat (length ?st))) 100),
           ''Inconsistent: '' @ str_nat passed @ ''/'' @ str_nat (length ?st) @ '' passed'')"
    using assms(1,2) fne t by (simp add: classify_def py_truediv_def)
  show ?thesis
    using ne c assms(3,4)
    by (simp add: determine_verdict_def Let_def cross_adjust_def)
qed

text \<open>
  C1, as the code has it. For every run set where more runs passed than failed and not
  all runs passed, the verdict is FLAKY with the reason "Inconsistent: passed/total
  passed"; its confidence is the base value \<open>int((passed / total) * 100)\<close>, the float
  quotient times 100 truncated towards zero, after the cross-validation adjustment
  (plus 10 capped at 100 on agreement, minus 20 floored at 0 on disagreement). For the
  runs passed, passed, failed with a disagreeing cross-validation the base confidence
  is 66 and the final confidence 46.
\<close>

theorem flaky_verdict:
  "(let passed = count_list (valid_statuses runs) (Some ''passed'');
        failed = count_list (valid_statuses runs) (Some ''failed'');
        total' = length (valid_statuses runs);
        base = py_int (fmul (fl (of_nat passed / of_nat total')) 100)
    in failed < passed \<and> passed \<noteq> total' \<longrightarrow>
       determine_verdict runs cv =
         Inr \<lparr>result = ''FLAKY'',
              confidence = (if agrees_with_primary cv then min 100 (base + 10)
                            else max 0 (base - 20)),
              reason = ''Inconsistent: '' @ str_nat passed @ ''/'' @ str_nat total' @ '' passed'',
              pass_count = Some passed, fail_count = Some failed, total_runs = Some total'\<rparr>) \<and>
   base_classification [run_with 0 ''passed'', run_with 1 ''passed'', run_with 2 ''failed'']
     = Inr (''FLAKY'', 66, ''Inconsistent: 2/3 passed'') \<and>
   determine_verdict [run_with 0 ''passed'', run_with 1 ''passed'', run_with 2 ''failed'']
       (cross_with ''failed'' False)
     = Inr \<lparr>result = ''FLAKY'', confidence = 46, reason = ''Inconsistent: 2/3 passed'',
            pass_count = Some 2, fail_count = Some 1, total_runs = Some 3\<rparr>"
proof -
  have i1: "base_classification [run_with 0 ''passed'', run_with 1 ''passed'', run_with 2 ''failed'']
     = Inr (''FLAKY'', 66, ''Inconsistent: 2/3 passed'')" by code_simp
  have i2: "determine_verdict [run_with 0 ''passed'', run_with 1 ''passed'', run_with 2 ''failed'']
       (cross_with ''failed'' False)
     = Inr \<lparr>result = ''FLAKY'', confidence = 46, reason = ''Inconsistent: 2/3 passed'',
            pass_count = Some 2, fail_count = Some 1, total_runs = Some 3\<rparr>" by code_simp
  show ?thesis
    using flaky_general[of _ _ runs cv, OF _ _ refl refl] i1 i2
    by (simp add: Let_def)
qed

theorem flaky_verdict_witness:
  "count_list (valid_statuses [run_with 0 ''passed'', run_with 1 ''failed'', run_with 2 ''passed'',
       run_with 3 ''passed'']) (Some ''failed'')
     < count_list (valid_statuses [run_with 0 ''passed'', run_with 1 ''failed'', run_with 2 ''passed'',
       run_with 3 ''passed'']) (Some ''passed'') \<and>
   count_list (valid_statuses [run_with 0 ''passed'', run_with 1 ''failed'', run_with 2 ''passed'',
       run_with 3 ''passed'']) (Some ''passed'')
     \<noteq> length (valid_statuses [run_with 0 ''passed'', run_with 1 ''failed'', run_with 2 ''passed'',
       run_with 3 ''passed'']) \<and>
   determine_verdict [run_with 0 ''passed'', run_with 1 ''failed'', run_with 2 ''passed'',
       run_with 3 ''passed''] (cross_with ''passed'' True)
     = Inr \<lparr>result = ''FLAKY'', confidence = 85, reason = ''Inconsistent: 3/4 passed'',
            pass_count = Some 3, fail_count = Some 1, total_runs = Some 4\<rparr>"
proof -
  let ?R = "[run_with 0 ''passed'', run_with 1 ''failed'', run_with 2 ''passed'',
       run_with 3 ''passed'']"
  let ?cv = "cross_with ''passed'' True"
  have pc: "count_list (valid_statuses ?R) (Some ''passed'') = 3"
    and fc: "count_list (valid_statuses ?R) (Some ''failed'') = 1"
    and len: "length (valid_statuses ?R) = 4"
    by code_simp+
  have b: "py_int (fmul (fl (3 / 4)) 100) = 75" by code_simp
  have s: "str_nat 3 = ''3''" "str_nat 4 = ''4''" by code_simp+
  have a: "agrees_with_primary ?cv" by (simp add: cross_with_def)
  have h1: "count_list (valid_statuses ?R) (Some ''failed'')
              < count_list (valid_statuses ?R) (Some ''passed'')"
    unfolding pc fc by simp
  have h2: "count_list (valid_statuses ?R) (Some ''passed'') \<noteq> length (valid_statuses ?R)"
    unfolding pc len by simp
  from flaky_verdict[of ?R ?cv, THEN conjunct1] h1 h2
  have "determine_verdict ?R ?cv =
         Inr \<lparr>result = ''FLAKY'',
              confidence = (if agrees_with_primary ?cv
                            then min 100 (py_int (fmul (fl (of_nat 3 / of_nat 4)) 100) + 10)
                            else max 0 (py_int (fmul (fl (of_nat 3 / of_nat 4)) 100) - 20)),
              reason = ''Inconsistent: '' @ str_nat 3 @ ''/'' @ str_nat 4 @ '' passed'',
              pass_count = Some 3, fail_count = Some 1, total_runs = Some 4\<rparr>"
    unfolding Let_def pc fc len by blast
  then have g: "determine_verdict ?R ?cv =
     Inr \<lparr>result = ''FLAKY'', confidence = 85, reason = ''Inconsistent: 3/4 passed'',
            pass_count = Some 3, fail_count = Some 1, total_runs = Some 4\<rparr>"
    by (simp add: b s a)
  show ?thesis using h1 h2 g by blast
qed

section \<open>Run sets of which every attempt ended in an error\<close>

lemma all_error_statuses:
  "list_all (\<lambda>r. status r = Some ''error'') runs \<Longrightarrow>
   valid_statuses runs = replicate (length runs) (Some ''error'')"
  by (induction runs) (simp_all add: valid_statuses_def truthy_def)

lemma all_error_runs_result:
  assumes "runs \<noteq> []" "list_all (\<lambda>r. status r = Some ''error'') runs"
  shows "\<exists>v. determine_verdict runs cv = Inr v \<and> result v = ''FAIL'' \<and>
           reason v = ''Majority failed: 0/'' @ str_nat (length runs)"
proof -
  have n: "length runs \<noteq> 0" using assms(1) by simp
  have c: "count_list (replicate (length runs) (Some ''error'')) (Some s) = 0"
    if "s \<noteq> ''error''" for s
    using that by (induction "length runs") (simp_all add: count_list_0_iff)
  have z: "py_int (fmul (fl 0) 100) = 0" by (simp add: fl_def fmul_def py_int_def)
  have k: "classify 0 0 (length runs) =
      Inr (''FAIL'', 0, ''Majority failed: '' @ str_nat 0 @ ''/'' @ str_nat (length runs))"
    using n by (simp add: classify_def py_truediv_def z)
  have s0: "str_nat 0 = ''0''" by code_simp
  show ?thesis
    using n k
    by (simp add: determine_verdict_def all_error_statuses[OF assms(2)] c Let_def
        cross_adjust_def s0)
qed

text \<open>
  C2. The specification asks for INCONCLUSIVE when no attempt succeeded. The orchestrator
  records an attempt whose browser could not start with the status "error"; three such
  runs, with a cross validator that could not start either, are judged FAIL with the
  reason "Majority failed: 0/3": the status "error" is truthy, so the runs are not
  filtered out, and the last branch of the classification takes them.
\<close>

theorem all_error_runs_fail:
  "determine_verdict
     [\<lparr>run_index = 0, status = Some ''error'', error = Some ''browser failed to start''\<rparr>,
      \<lparr>run_index = 1, status = Some ''error'', error = Some ''browser failed to start''\<rparr>,
      \<lparr>run_index = 2, status = Some ''error'', error = Some ''browser failed to start''\<rparr>]
     (cross_agent_validate (Inl ''browser failed to start'')
        [\<lparr>run_index = 0, status = Some ''error'', error = Some ''browser failed to start''\<rparr>,
         \<lparr>run_index = 1, status = Some ''error'', error = Some ''browser failed to start''\<rparr>,
         \<lparr>run_index = 2, status = Some ''error'', error = Some ''browser failed to start''\<rparr>])
   = Inr \<lparr>result = ''FAIL'', confidence = 0, reason = ''Majority failed: 0/3'',
          pass_count = Some 0, fail_count = Some 0, total_runs = Some 3\<rparr>"
  by code_simp

section \<open>Agreement of the cross validator\<close>



section \<open>The final artifact capture of an attempt\<close>

text \<open>
  The specification says that a failure of the artifact capture does not change the status
  of an attempt. In \<open>execute_test\<close> the final \<open>capture_all\<close> stands inside the \<open>try\<close>
  block, after the status has been set: when it raises an \<open>Exception\<close>, the \<open>except\<close>
  clause overwrites the status with "error". Two steps that both pass and a final
  capture that raises an \<open>Exception\<close> give a result with the status "error", not
  "passed".
\<close>

theorem capture_failure_counterexample:
  "map_sum id step_statuses
      (execute_test ''exec_0'' sample_test passing_env (Inl (Exception ''disk full'')))
     = Inr [''passed'', ''passed''] \<and>
   map_sum id t_status
      (execute_test ''exec_0'' sample_test passing_env (Inl (Exception ''disk full'')))
     = Inr ''error'' \<and>
   map_sum id t_status
      (execute_test ''exec_0'' sample_test passing_env (Inl (Exception ''disk full'')))
     \<noteq> Inr ''passed''"
  by code_simp

lemma run_steps_all_passed:
  "\<forall>k < length ss. \<exists>sr. execute_step (env (i + k)) (ss ! k) (i + k) = Inr sr \<and>
      step_status sr = ''passed'' \<Longrightarrow>
   \<exists>r. run_steps env ss i res = Inr r \<and> t_status r = t_status res"
proof (induction ss arbitrary: i res)
  case Nil
  then show ?case by simp
next
  case (Cons s ss)
  have "\<exists>sr. execute_step (env (i + 0)) ((s # ss) ! 0) (i + 0) = Inr sr \<and>
      step_status sr = ''passed''"
    using Cons.prems by blast
  then obtain sr where h0: "execute_step (env i) s i = Inr sr" "step_status sr = ''passed''"
    by auto
  have hs: "\<forall>k < length ss. \<exists>sr. execute_step (env (Suc i + k)) (ss ! k) (Suc i + k) = Inr sr \<and>
      step_status sr = ''passed''"
  proof (intro allI impI)
    fix k assume "k < length ss"
    then have "Suc k < length (s # ss)" by simp
    from Cons.prems[rule_format, OF this]
    show "\<exists>sr. execute_step (env (Suc i + k)) (ss ! k) (Suc i + k) = Inr sr \<and>
      step_status sr = ''passed''" by simp
  qed
  from Cons.IH[OF hs, of "res\<lparr>steps := steps res @ [sr]\<rparr>"]
  show ?case using h0 by (simp add: Let_def)
qed

lemma final_capture_uncaught:
  assumes "\<forall>k < length (tc_steps tc).
       \<exists>sr. execute_step (env k) (tc_steps tc ! k) k = Inr sr \<and> step_status sr = ''passed''"
  shows "execute_test agent tc env (Inl (BaseException e)) = Inl (BaseException e)"
proof -
  let ?init = "\<lparr>test_id = tc_id tc, test_name = tc_name tc, agent_id = agent,
       steps = [], t_status = ''running'', artifacts = [], t_error = None\<rparr>"
  from assms have "\<forall>k < length (tc_steps tc).
       \<exists>sr. execute_step (env (0 + k)) (tc_steps tc ! k) (0 + k) = Inr sr \<and>
         step_status sr = ''passed''" by simp
  from run_steps_all_passed[OF this, of ?init]
  obtain r where "run_steps env (tc_steps tc) 0 ?init = Inr r" by auto
  then show ?thesis by (simp add: execute_test_def Let_def)
qed

text \<open>
  C8, as the code has it. A failure of the final artifact capture changes the status of
  the attempt: whenever \<open>execute_test\<close> returns a result after the final capture raised
  an \<open>Exception\<close>, that result has the status "error" and as its error the message of
  the exception. If every step executed without failure and the final capture raises an
  \<open>Exception\<close>, \<open>execute_test\<close> returns such a result, with the status "error" and not
  "passed"; if every step executed without failure and the final capture succeeds, it
  returns a result with the status "passed".
\<close>

theorem capture_failure_is_error:
  "(\<forall>res. execute_test agent tc env (Inl (Exception e)) = Inr res \<longrightarrow>
      t_status res = ''error'' \<and> t_error res = Some e) \<and>
   ((\<forall>k < length (tc_steps tc).
       \<exists>sr. execute_step (env k) (tc_steps tc ! k) k = Inr sr \<and> step_status sr = ''passed'') \<longrightarrow>
    (\<exists>res. execute_test agent tc env (Inl (Exception e)) = Inr res \<and>
       t_status res = ''error'' \<and> t_error res = Some e) \<and>
    (\<exists>res. execute_test agent tc env (Inr arts) = Inr res \<and> t_status res = ''passed''))"
proof (intro conjI impI allI)
  fix res
  assume "execute_test agent tc env (Inl (Exception e)) = Inr res"
  then show "t_status res = ''error''" and "t_error res = Some e"
    by (auto simp: execute_test_def Let_def split: sum.splits)
next
  let ?init = "\<lparr>test_id = tc_id tc, test_name = tc_name tc, agent_id = agent,
       steps = [], t_status = ''running'', artifacts = [], t_error = None\<rparr>"
  assume "\<forall>k < length (tc_steps tc).
       \<exists>sr. execute_step (env k) (tc_steps tc ! k) k = Inr sr \<and> step_status sr = ''passed''"
  then have "\<forall>k < length (tc_steps tc).
       \<exists>sr. execute_step (env (0 + k)) (tc_steps tc ! k) (0 + k) = Inr sr \<and>
         step_status sr = ''passed''" by simp
  from run_steps_all_passed[OF this, of ?init]
  obtain r where r: "run_steps env (tc_steps tc) 0 ?init = Inr r" "t_status r = ''running''"
    by auto
  show "\<exists>res. execute_test agent tc env (Inl (Exception e)) = Inr res \<and>
       t_status res = ''error'' \<and> t_error res = Some e"
    using r by (simp add: execute_test_def Let_def)
  show "\<exists>res. execute_test agent tc env (Inr arts) = Inr res \<and> t_status res = ''passed''"
    using r by (simp add: execute_test_def Let_def)
qed

theorem capture_failure_is_error_witness:
  "tc_steps sample_test = [''Click start'', ''Wait''] \<and>
   map_sum id step_status (execute_step (passing_env 0) ''Click start'' 0) = Inr ''passed'' \<and>
   map_sum id step_status (execute_step (passing_env 1) ''Wait'' 1) = Inr ''passed'' \<and>
   map_sum id t_status
      (execute_test ''exec_0'' sample_test passing_env (Inl (Exception ''disk full'')))
     = Inr ''error'' \<and>
   map_sum id t_error
      (execute_test ''exec_0'' sample_test passing_env (Inl (Exception ''disk full'')))
     = Inr (Some ''disk full'') \<and>
   map_sum id t_status
      (execute_test ''exec_0'' sample_test passing_env (Inr [(''screenshot'', ''final.png'')]))
     = Inr ''passed''"
proof -
  have s: "tc_steps sample_test = [''Click start'', ''Wait'']"
    by (simp add: sample_test_def)
  have p0: "map_sum id step_status (execute_step (passing_env 0) ''Click start'' 0) = Inr ''passed''"
    and p1: "map_sum id step_status (execute_step (passing_env 1) ''Wait'' 1) = Inr ''passed''"
    by (simp_all add: execute_step_def passing_env_def Let_def)
  have p: "\<forall>k < length (tc_steps sample_test).
      \<exists>sr. execute_step (passing_env k) (tc_steps sample_test ! k) k = Inr sr \<and>
        step_status sr = ''passed''"
    by (simp add: execute_step_def passing_env_def Let_def)
  from capture_failure_is_error[of "''exec_0''" sample_test passing_env "''disk full''"
      "[(''screenshot'', ''final.png'')]"] p
  obtain r1 r2 where
    "execute_test ''exec_0'' sample_test passing_env (Inl (Exception ''disk full'')) = Inr r1"
    "t_status r1 = ''error''" "t_error r1 = Some ''disk full''"
    "execute_test ''exec_0'' sample_test passing_env (Inr [(''screenshot'', ''final.png'')]) = Inr r2"
    "t_status r2 = ''passed''"
    by blast
  then show ?thesis using s p0 p1 by simp
qed

section \<open>The counter and the modal count\<close>

lemma counter_update_map_of:
  "map_of (counter_update x c) =
     (map_of c)(x \<mapsto> (case map_of c x of None \<Rightarrow> 1 | Some n \<Rightarrow> n + 1))"
  by (induction x c rule: counter_update.induct) (auto simp: fun_eq_iff)

lemma counter_update_keys:
  "map fst (counter_update x c) = (if x \<in> fst ` set c then map fst c else map fst c @ [x])"
  by (induction x c rule: counter_update.induct) auto

lemma Counter_snoc: "Counter (xs @ [x]) = counter_update x (Counter xs)"
  by (simp add: Counter_def)

lemma Counter_keys: "distinct (map fst (Counter xs)) \<and> fst ` set (Counter xs) = set xs"
proof (induction xs rule: rev_induct)
  case Nil
  then show ?case by (simp add: Counter_def)
next
  case (snoc x xs)
  have k: "map fst (Counter (xs @ [x])) =
      (if x \<in> set xs then map fst (Counter xs) else map fst (Counter xs) @ [x])"
    using snoc by (simp add: Counter_snoc counter_update_keys)
  have d: "distinct (map fst (Counter (xs @ [x])))"
    unfolding k using snoc by auto
  have "set (map fst (Counter (xs @ [x]))) = set (xs @ [x])"
    unfolding k using snoc by auto
  then show ?case using d by simp
qed

lemma Counter_map_of:
  "map_of (Counter xs) x = (if x \<in> set xs then Some (count_list xs x) else None)"
proof (induction xs arbitrary: x rule: rev_induct)
  case Nil
  then show ?case by (simp add: Counter_def)
next
  case (snoc y xs)
  then show ?case by (simp add: Counter_snoc counter_update_map_of)
qed

lemma Counter_set: "set (Counter xs) = (\<lambda>x. (x, count_list xs x)) ` set xs"
proof (rule set_eqI)
  fix kc :: "'a \<times> nat"
  obtain k c where kc: "kc = (k, c)" by (cases kc)
  have d: "distinct (map fst (Counter xs))" using Counter_keys by blast
  have "(k, c) \<in> set (Counter xs) \<longleftrightarrow> map_of (Counter xs) k = Some c"
    using d by simp
  also have "\<dots> \<longleftrightarrow> k \<in> set xs \<and> c = count_list xs k"
    by (auto simp: Counter_map_of)
  finally show "kc \<in> set (Counter xs) \<longleftrightarrow> kc \<in> (\<lambda>x. (x, count_list xs x)) ` set xs"
    by (auto simp: kc)
qed

lemma Max_insert_below:
  "finite A \<Longrightarrow> A \<noteq> {} \<Longrightarrow> (x::nat) \<le> Max A \<Longrightarrow> Max (insert x A) = Max A"
  by simp

lemma max_by_count_snd: "snd (max_by_count b kcs) = Max (snd ` set (b # kcs))"
proof (induction kcs arbitrary: b)
  case Nil
  then show ?case by simp
next
  case (Cons kc kcs)
  let ?S = "snd ` set kcs"
  show ?case
  proof (cases "snd b < snd kc")
    case True
    have "snd kc \<le> Max (insert (snd kc) ?S)" by (rule Max_ge) simp_all
    then have "snd b \<le> Max (insert (snd kc) ?S)" using True by linarith
    then have "Max (insert (snd b) (insert (snd kc) ?S)) = Max (insert (snd kc) ?S)"
      by (intro Max_insert_below) simp_all
    then show ?thesis using True Cons.IH[of kc] by simp
  next
    case False
    have "snd b \<le> Max (insert (snd b) ?S)" by (rule Max_ge) simp_all
    then have "snd kc \<le> Max (insert (snd b) ?S)" using False by linarith
    then have "Max (insert (snd kc) (insert (snd b) ?S)) = Max (insert (snd b) ?S)"
      by (intro Max_insert_below) simp_all
    then have "Max (insert (snd b) (insert (snd kc) ?S)) = Max (insert (snd b) ?S)"
      by (simp add: insert_commute)
    then show ?thesis using False Cons.IH[of b] by simp
  qed
qed

lemma max_by_count_mem: "max_by_count b kcs \<in> set (b # kcs)"
  by (induction kcs arbitrary: b) (auto split: if_splits)

lemma most_common1_Counter:
  assumes "xs \<noteq> []"
  shows "\<exists>k. k \<in> set xs \<and> most_common1 (Counter xs) = [(k, modal_count xs)]"
proof -
  have ne: "Counter xs \<noteq> []" using assms Counter_set[of xs] by auto
  then obtain kc kcs where c: "Counter xs = kc # kcs" by (cases "Counter xs") auto
  let ?m = "max_by_count kc kcs"
  have m: "most_common1 (Counter xs) = [?m]" by (simp add: most_common1_def c)
  have "snd ?m = Max (snd ` set (Counter xs))" by (simp only: max_by_count_snd c)
  also have "snd ` set (Counter xs) = count_list xs ` set xs"
    by (auto simp: Counter_set image_iff)
  finally have s: "snd ?m = modal_count xs" by (simp add: modal_count_def)
  have "?m \<in> set (Counter xs)" using max_by_count_mem[of kc kcs] c by simp
  then have "fst ?m \<in> set xs" by (auto simp: Counter_set)
  then show ?thesis using m s by (metis prod.collapse)
qed

lemma reproducibility_formula:
  assumes "runs \<noteq> []"
  shows "calculate_reproducibility runs =
     Inr (py_round2 (fmul (fl (of_nat (modal_count (map status runs)) / of_nat (length runs))) 100))"
proof -
  have ne: "map status runs \<noteq> []" using assms by simp
  from most_common1_Counter[OF ne] obtain k where
    m: "most_common1 (Counter (map status runs)) = [(k, modal_count (map status runs))]"
    by blast
  show ?thesis using assms m
    by (simp add: calculate_reproducibility_def Let_def py_truediv_def)
qed

lemma fl_one: "fl 1 = 1" by code_simp
lemma fl_hundred: "fl 100 = 100" by code_simp
lemma round_half_even_of_int: "round_half_even (of_int k) = k"
  by (simp add: round_half_even_def)

lemma full_score: "py_round2 (fmul (fl 1) 100) = py_float 100"
proof -
  have "round_half_even (100 * 100) = 10000"
    using round_half_even_of_int[of 10000] by simp
  then show ?thesis by (simp add: py_round2_def fmul_def fl_one fl_hundred py_float_def)
qed

section \<open>Inconclusive and fully reproducible\<close>

lemma no_status_replicate:
  "list_all (\<lambda>r. status r = None) runs \<Longrightarrow> map status runs = replicate (length runs) None"
  by (induction runs) simp_all

lemma count_list_replicate_same: "count_list (replicate n x) x = n"
  by (induction n) simp_all

lemma modal_count_replicate: "0 < n \<Longrightarrow> modal_count (replicate n x) = n"
  by (simp add: modal_count_def count_list_replicate_same)

text \<open>
  C10. Every non-empty run set in which no run carries a status is judged INCONCLUSIVE,
  because the verdict engine filters the missing statuses out, and has the
  reproducibility 100.0, because the scorer counts them: the missing status is the
  modal status and every run shares it.
\<close>

theorem inconclusive_yet_reproducible:
  assumes "runs \<noteq> []" "list_all (\<lambda>r. status r = None) runs"
  shows "determine_verdict runs cv =
           Inr \<lparr>result = ''INCONCLUSIVE'', confidence = 0, reason = ''No valid runs completed'',
                pass_count = None, fail_count = None, total_runs = None\<rparr> \<and>
         calculate_reproducibility runs = Inr (py_float 100)"
proof -
  have n: "0 < length runs" using assms(1) by simp
  have m: "modal_count (map status runs) = length runs"
    using modal_count_replicate[OF n] by (simp add: no_status_replicate[OF assms(2)])
  have q: "(of_nat (length runs) :: rat) / of_nat (length runs) = 1" using n by simp
  have r: "calculate_reproducibility runs = Inr (py_float 100)"
    by (simp only: reproducibility_formula[OF assms(1)] m q full_score)
  have v: "determine_verdict runs cv =
           Inr \<lparr>result = ''INCONCLUSIVE'', confidence = 0, reason = ''No valid runs completed'',
                pass_count = None, fail_count = None, total_runs = None\<rparr>"
    by (simp add: determine_verdict_def no_status_filtered[OF assms(2)])
  show ?thesis using v r by simp
qed

theorem inconclusive_yet_reproducible_witness:
  "[run_without_status 0, run_without_status 1, run_without_status 2] \<noteq> [] \<and>
   list_all (\<lambda>r. status r = None)
     [run_without_status 0, run_without_status 1, run_without_status 2] \<and>
   determine_verdict [run_without_status 0, run_without_status 1, run_without_status 2]
       (cross_with ''passed'' False) =
     Inr \<lparr>result = ''INCONCLUSIVE'', confidence = 0, reason = ''No valid runs completed'',
          pass_count = None, fail_count = None, total_runs = None\<rparr> \<and>
   calculate_reproducibility [run_without_status 0, run_without_status 1, run_without_status 2]
     = Inr (py_float 100) \<and>
   py_float 100 = 100"
proof -
  let ?R = "[run_without_status 0, run_without_status 1, run_without_status 2]"
  have ne: "?R \<noteq> []" by simp
  have a: "list_all (\<lambda>r. status r = None) ?R" by (simp add: run_without_status_def)
  have h: "py_float 100 = 100" by (simp add: py_float_def fl_hundred)
  from inconclusive_yet_reproducible[OF ne a, of "cross_with ''passed'' False"] ne a h
  show ?thesis by blast
qed

section \<open>The gate of the learning collaborator\<close>

text \<open>
  C9. \<open>_record_for_learning\<close> calls \<open>add_test_result\<close>, once and with the result
  "PASS", exactly when the result of the verdict is "PASS" and the reproducibility is at
  least 80; for any other verdict or a lower reproducibility the knowledge base receives
  no call and stays as it was.
\<close>

theorem learning_gate:
  "(record_for_learning kb url test results = add_test_result kb url test ''PASS'' 0 None \<longleftrightarrow>
      (\<exists>v. vr_verdict results = Some v \<and> result v = ''PASS'') \<and>
      (\<exists>x. vr_reproducibility results = Some x \<and> 80 \<le> x)) \<and>
   (record_for_learning kb url test results = kb \<longleftrightarrow>
      \<not> ((\<exists>v. vr_verdict results = Some v \<and> result v = ''PASS'') \<and>
         (\<exists>x. vr_reproducibility results = Some x \<and> 80 \<le> x))) \<and>
   length (add_test_result kb url test ''PASS'' 0 None) = length kb + 1"
  by (auto simp: record_for_learning_def add_test_result_def Let_def split: option.splits)

theorem learning_gate_witness:
  "record_for_learning [] ''http://game'' sample_test (validated_with ''PASS'' 100)
     = [\<lparr>game_url = ''http://game'', kb_test_case = sample_test, kb_result = ''PASS'',
         execution_time = 0, kb_artifacts = None\<rparr>] \<and>
   record_for_learning [] ''http://game'' sample_test (validated_with ''PASS'' 80)
     = [\<lparr>game_url = ''http://game'', kb_test_case = sample_test, kb_result = ''PASS'',
         execution_time = 0, kb_artifacts = None\<rparr>] \<and>
   record_for_learning [] ''http://game'' sample_test (validated_with ''PASS'' (py_float (6667 / 100))) = [] \<and>
   record_for_learning [] ''http://game'' sample_test (validated_with ''FLAKY'' 100) = [] \<and>
   record_for_learning [] ''http://game'' sample_test (validated_with ''FAIL'' 100) = []"
proof -
  have v: "vr_verdict (validated_with r x) = Some (verdict_with r)"
    "vr_reproducibility (validated_with r x) = Some x"
    "result (verdict_with r) = r" for r x
    by (simp_all add: validated_with_def verdict_with_def)
  have f: "\<not> 80 \<le> py_float (6667 / 100)" by code_simp
  have a: "add_test_result [] ''http://game'' sample_test ''PASS'' 0 None
     = [\<lparr>game_url = ''http://game'', kb_test_case = sample_test, kb_result = ''PASS'',
         execution_time = 0, kb_artifacts = None\<rparr>]"
    by (simp add: add_test_result_def)
  have 1: "record_for_learning [] ''http://game'' sample_test (validated_with ''PASS'' 100)
      = add_test_result [] ''http://game'' sample_test ''PASS'' 0 None"
    using learning_gate[of "[]" "''http://game''" sample_test "validated_with ''PASS'' 100"]
    by (simp add: v)
  have 2: "record_for_learning [] ''http://game'' sample_test (validated_with ''PASS'' 80)
      = add_test_result [] ''http://game'' sample_test ''PASS'' 0 None"
    using learning_gate[of "[]" "''http://game''" sample_test "validated_with ''PASS'' 80"]
    by (simp add: v)
  have 3: "record_for_learning [] ''http://game'' sample_test
      (validated_with ''PASS'' (py_float (6667 / 100))) = []"
    using learning_gate[of "[]" "''http://game''" sample_test
        "validated_with ''PASS'' (py_float (6667 / 100))"] f
    by (simp add: v)
  have 4: "record_for_learning [] ''http://game'' sample_test (validated_with ''FLAKY'' 100) = []"
    using learning_gate[of "[]" "''http://game''" sample_test "validated_with ''FLAKY'' 100"]
    by (simp add: v)
  have 5: "record_for_learning [] ''http://game'' sample_test (validated_with ''FAIL'' 100) = []"
    using learning_gate[of "[]" "''http://game''" sample_test "validated_with ''FAIL'' 100"]
    by (simp add: v)
  show ?thesis using 1 2 3 4 5 a by simp
qed

section \<open>The reproducibility score\<close>

lemma count_list_replicate: "count_list (replicate n x) y = (if x = y then n else 0)"
  by (induction n) auto

lemma modal_count_two:
  "x \<noteq> y \<Longrightarrow> 0 < b \<Longrightarrow> b \<le> a \<Longrightarrow> modal_count (replicate a x @ replicate b y) = a"
  by (simp add: modal_count_def count_list_replicate max_def)

lemma statuses_run_with:
  "map status (map (\<lambda>i. run_with i s) xs) = replicate (length xs) (Some s)"
  by (induction xs) (simp_all add: run_with_def)

lemma statuses_87_of_160:
  "map status runs_87_of_160 = replicate 87 (Some ''passed'') @ replicate 73 (Some ''failed'')"
proof -
  have "map status runs_87_of_160 =
      replicate (87 - 0) (Some ''passed'') @ replicate (160 - 87) (Some ''failed'')"
    by (simp only: runs_87_of_160_def map_append statuses_run_with length_upt)
  then show ?thesis by simp
qed

text \<open>
  The specification gives the score as \<open>round(100 * m / len(runs), 2)\<close>. The code
  divides first and multiplies afterwards, \<open>round((m / len) * 100, 2)\<close>, and the two
  roundings of the floats show at a tie: for 160 runs of which 87 passed and 73 failed,
  \<open>100 * 87 / 160\<close> is 54.375 and rounds to 54.38, in floats as in exact arithmetic,
  while \<open>(87 / 160) * 100\<close> is the float just below 54.375 and rounds to 54.37.
\<close>

theorem reproducibility_counterexample:
  "length runs_87_of_160 = 160 \<and>
   modal_count (map status runs_87_of_160) = 87 \<and>
   calculate_reproducibility runs_87_of_160 = Inr (py_float (5437 / 100)) \<and>
   spec_score runs_87_of_160 = py_float (5438 / 100) \<and>
   spec_score_exact runs_87_of_160 = 5438 / 100 \<and>
   py_float (5437 / 100) \<noteq> py_float (5438 / 100)"
proof -
  have l: "length runs_87_of_160 = 160" by (simp add: runs_87_of_160_def)
  have m: "modal_count (map status runs_87_of_160) = 87"
    unfolding statuses_87_of_160 by (rule modal_count_two) simp_all
  have ne: "runs_87_of_160 \<noteq> []" using l by auto
  have f1: "py_round2 (fmul (fl (87 / 160)) 100) = py_float (5437 / 100)" by code_simp
  have f2: "py_round2 (fl (8700 / 160)) = py_float (5438 / 100)" by code_simp
  have f3: "rat_of_int (round_half_even (100 * (8700 / 160))) / 100 = 5438 / 100" by code_simp
  have f4: "py_float (5437 / 100) \<noteq> py_float (5438 / 100)" by code_simp
  have c: "calculate_reproducibility runs_87_of_160 = Inr (py_float (5437 / 100))"
    unfolding reproducibility_formula[OF ne] l m using f1 by simp
  have s: "spec_score runs_87_of_160 = py_float (5438 / 100)"
    unfolding spec_score_def l m using f2 by simp
  have x: "spec_score_exact runs_87_of_160 = 5438 / 100"
    unfolding spec_score_exact_def l m using f3 by simp
  show ?thesis using l m c s x f4 by blast
qed

text \<open>
  C5, as the code has it. The reproducibility scorer returns \<open>0.0\<close> for the empty run
  set and otherwise \<open>round((m / len(runs)) * 100, 2)\<close>, the float quotient formed first
  and multiplied by 100 afterwards, where \<open>m\<close> is the count of the most frequent status
  among all runs, a missing status counting as a status. It returns 66.67 for the
  statuses passed, passed, failed and 100.0 for five failed statuses.
\<close>

theorem reproducibility_score:
  "calculate_reproducibility [] = Inr (py_float 0) \<and>
   (runs \<noteq> [] \<longrightarrow>
      calculate_reproducibility runs =
        Inr (py_round2 (fmul (fl (of_nat (modal_count (map status runs)) / of_nat (length runs))) 100))) \<and>
   calculate_reproducibility [run_with 0 ''passed'', run_with 1 ''passed'', run_with 2 ''failed'']
     = Inr (py_float (6667 / 100)) \<and>
   calculate_reproducibility [run_with 0 ''failed'', run_with 1 ''failed'', run_with 2 ''failed'',
       run_with 3 ''failed'', run_with 4 ''failed'']
     = Inr (py_float 100)"
proof (intro conjI impI)
  show "calculate_reproducibility [] = Inr (py_float 0)"
    by (simp add: calculate_reproducibility_def py_float_def fl_def)
next
  let ?R = "[run_with 0 ''passed'', run_with 1 ''passed'', run_with 2 ''failed'']"
  have m: "modal_count (map status ?R) = 2"
    using modal_count_two[of "Some ''passed''" "Some ''failed''" 1 2]
    by (simp add: run_with_def numeral_2_eq_2)
  have f: "py_round2 (fmul (fl (2 / 3)) 100) = py_float (6667 / 100)" by code_simp
  have "calculate_reproducibility ?R =
      Inr (py_round2 (fmul (fl (of_nat (modal_count (map status ?R)) / of_nat (length ?R))) 100))"
    by (rule reproducibility_formula) simp
  then show "calculate_reproducibility ?R = Inr (py_float (6667 / 100))"
    unfolding m using f by simp
next
  let ?R = "[run_with 0 ''failed'', run_with 1 ''failed'', run_with 2 ''failed'',
       run_with 3 ''failed'', run_with 4 ''failed'']"
  have "map status ?R = replicate 5 (Some ''failed'')"
    by (simp add: run_with_def numeral_eq_Suc)
  then have m: "modal_count (map status ?R) = 5"
    using modal_count_replicate[of 5 "Some ''failed''"] by simp
  have "calculate_reproducibility ?R =
      Inr (py_round2 (fmul (fl (of_nat (modal_count (map status ?R)) / of_nat (length ?R))) 100))"
    by (rule reproducibility_formula) simp
  then show "calculate_reproducibility ?R = Inr (py_float 100)"
    unfolding m using full_score by simp
next
  assume "runs \<noteq> []"
  then show "calculate_reproducibility runs =
        Inr (py_round2 (fmul (fl (of_nat (modal_count (map status runs)) / of_nat (length runs))) 100))"
    by (rule reproducibility_formula)
qed

theorem reproducibility_score_witness:
  "[run_with 0 ''passed'', run_with 1 ''failed''] \<noteq> [] \<and>
   modal_count (map status [run_with 0 ''passed'', run_with 1 ''failed'']) = 1 \<and>
   calculate_reproducibility [run_with 0 ''passed'', run_with 1 ''failed''] = Inr (py_float 50)"
proof -
  let ?R = "[run_with 0 ''passed'', run_with 1 ''failed'']"
  have ne: "?R \<noteq> []" by simp
  have m: "modal_count (map status ?R) = 1"
    using modal_count_two[of "Some ''passed''" "Some ''failed''" 1 1]
    by (simp add: run_with_def)
  have f: "py_round2 (fmul (fl (1 / 2)) 100) = py_float 50" by code_simp
  from reproducibility_score[of ?R] ne
  have "calculate_reproducibility ?R =
      Inr (py_round2 (fmul (fl (of_nat (modal_count (map status ?R)) / of_nat (length ?R))) 100))"
    by blast
  then have "calculate_reproducibility ?R = Inr (py_float 50)"
    unfolding m using f by simp
  then show ?thesis using ne m by blast
qed

end
